theory Spec2Isabelle
  imports Main "HOL-Library.Sublist"
begin

section \<open>TagPicker.vue: data model\<close>

text \<open>
  The component works on tags fetched from the tag API. A tag carries its own \<open>id\<close>,
  \<open>name\<close> and \<open>color\<close> and its tag type; the tag type carries \<open>id\<close>, \<open>name\<close>,
  \<open>description\<close>, an optional \<open>icon\<close>, \<open>color\<close> and the \<open>exclusive\<close> flag. Ids are
  integer primary keys. Names are modelled as byte strings (ASCII).
\<close>

record tag_type =
  tt_id :: int
  tt_name :: string
  tt_description :: string
  tt_icon :: "string option"
  tt_color :: string
  tt_exclusive :: bool

record tag =
  tag_id :: int
  tag_name :: string
  tag_color :: string
  tag_tag_type :: tag_type

text \<open>
  The view model built by \<open>convertData\<close>: one group per tag type.
\<close>

record group =
  g_id :: int
  g_icon :: "string option"
  g_label :: string
  g_desc :: string
  g_color :: string
  g_isExclusive :: bool
  g_menuItems :: "tag list"

text \<open>
  The host owns the selection (\<open>props.modelValue\<close>, declared as \<open>Array\<close>). Its entries
  are meant to be tags, but the setter of \<open>selectedItems\<close> tests \<open>typeof v === "string"\<close>,
  so an entry is a JavaScript value: a string, a number, a boolean, \<open>null\<close>,
  \<open>undefined\<close>, or a (well-formed) tag object.
\<close>

datatype js_value =
  JStr string
| JNum int
| JBool bool
| JNull
| JUndefined
| JObj tag

datatype error = TypeError

text \<open>\<open>typeof v === "string"\<close>\<close>

fun typeof_string :: "js_value \<Rightarrow> bool" where
  "typeof_string (JStr s) = True"
| "typeof_string v = False"

text \<open>
  The property read \<open>v.id\<close>: the id of a tag object, \<open>undefined\<close> (\<open>None\<close>) on a
  primitive, and a \<open>TypeError\<close> on \<open>null\<close> and \<open>undefined\<close>.
\<close>

fun prop_id :: "js_value \<Rightarrow> error + int option" where
  "prop_id (JObj t) = Inr (Some (tag_id t))"
| "prop_id JNull = Inl TypeError"
| "prop_id JUndefined = Inl TypeError"
| "prop_id v = Inr None"

text \<open>
  The property chain \<open>v.tag_type.id\<close>: on a primitive \<open>v.tag_type\<close> is \<open>undefined\<close> and
  reading \<open>.id\<close> of it throws.
\<close>

fun prop_tag_type_id :: "js_value \<Rightarrow> error + int" where
  "prop_tag_type_id (JObj t) = Inr (tt_id (tag_tag_type t))"
| "prop_tag_type_id v = Inl TypeError"

text \<open>
  \<open>Array.prototype.some\<close> with a callback that may throw: the scan stops at the first
  element for which the callback returns true, and at the first throw.
\<close>

fun some_e :: "('a \<Rightarrow> error + bool) \<Rightarrow> 'a list \<Rightarrow> error + bool" where
  "some_e p [] = Inr False"
| "some_e p (x # xs) =
     (case p x of
        Inl e \<Rightarrow> Inl e
      | Inr b \<Rightarrow> if b then Inr True else some_e p xs)"

text \<open>\<open>Array.prototype.filter\<close> with a callback that may throw.\<close>

fun filter_e :: "('a \<Rightarrow> error + bool) \<Rightarrow> 'a list \<Rightarrow> error + 'a list" where
  "filter_e p [] = Inr []"
| "filter_e p (x # xs) =
     (case p x of
        Inl e \<Rightarrow> Inl e
      | Inr b \<Rightarrow>
          (case filter_e p xs of
             Inl e \<Rightarrow> Inl e
           | Inr ys \<Rightarrow> Inr (if b then x # ys else ys)))"

section \<open>Selection management\<close>

text \<open>
  \<open>selectedItems\<close> is a computed property. The getter returns \<open>cloneDeep(props.modelValue)\<close>:
  a fresh copy, equal as a value. The setter drops the string entries and emits
  \<open>update:modelValue\<close> with the rest; the function returns the emitted payload.
\<close>

definition selectedItems_get :: "js_value list \<Rightarrow> js_value list" where
  "selectedItems_get modelValue = modelValue"

definition selectedItems_set :: "js_value list \<Rightarrow> error + js_value list" where
  "selectedItems_set val =
     (let tags = filter (\<lambda>v. if typeof_string v then False else True) val
      in Inr tags)"

text \<open>
  \<open>removeItem(index)\<close>: assigns the selection without the entries whose \<open>id\<close> is
  \<open>index\<close>; the chip's close button passes \<open>item.id\<close>.
\<close>

definition removeItem :: "js_value list \<Rightarrow> int \<Rightarrow> error + js_value list" where
  "removeItem modelValue index =
     (case filter_e
             (\<lambda>item. case prop_id item of
                        Inl e \<Rightarrow> Inl e
                      | Inr i \<Rightarrow> Inr (i \<noteq> Some index))
             (selectedItems_get modelValue) of
        Inl e \<Rightarrow> Inl e
      | Inr val \<Rightarrow> selectedItems_set val)"

text \<open>
  Each menu item is an \<open>input type="checkbox"\<close> with \<open>v-model="selectedItems"\<close> and
  \<open>:value="item"\<close>. For an array model, the directive looks the item up in the array
  with \<open>looseIndexOf\<close>, the index of the first entry that is \<open>looseEqual\<close> to the item; the
  box is rendered checked when the item is found. A click on the box (an enabled box: a
  disabled one receives no click) flips it: when it becomes checked and the item was not
  found, the directive assigns \<open>modelValue.concat(item)\<close>; when it becomes unchecked and
  the item was found at \<open>index\<close>, it assigns a copy with that one position spliced out.

  \<open>looseEqual(a, b)\<close> on an entry and a tag object: a primitive, \<open>null\<close> or \<open>undefined\<close> is
  not equal to an object; two objects are equal when they have the same keys and the
  values under each key are \<open>looseEqual\<close>; two values that are not objects are equal when
  \<open>String(a) === String(b)\<close>. Numbers, booleans and strings of the same type have equal
  strings exactly when they are equal. The optional \<open>icon\<close> is \<open>null\<close> or a string, and
  \<open>String(null)\<close> is \<open>"null"\<close>: a missing icon is loosely equal to the icon named \<open>null\<close>.
\<close>

fun String_icon :: "string option \<Rightarrow> string" where
  "String_icon None = ''null''"
| "String_icon (Some s) = s"

definition looseEqual_tag_type :: "tag_type \<Rightarrow> tag_type \<Rightarrow> bool" where
  "looseEqual_tag_type a b =
     (tt_id a = tt_id b \<and> tt_name a = tt_name b \<and> tt_description a = tt_description b
      \<and> String_icon (tt_icon a) = String_icon (tt_icon b)
      \<and> tt_color a = tt_color b \<and> tt_exclusive a = tt_exclusive b)"

definition looseEqual_tag :: "tag \<Rightarrow> tag \<Rightarrow> bool" where
  "looseEqual_tag a b =
     (tag_id a = tag_id b \<and> tag_name a = tag_name b \<and> tag_color a = tag_color b
      \<and> looseEqual_tag_type (tag_tag_type a) (tag_tag_type b))"

fun looseEqual :: "js_value \<Rightarrow> tag \<Rightarrow> bool" where
  "looseEqual (JObj t) item = looseEqual_tag t item"
| "looseEqual v item = False"

fun looseIndexOf :: "js_value list \<Rightarrow> tag \<Rightarrow> nat option" where
  "looseIndexOf [] item = None"
| "looseIndexOf (x # xs) item =
     (if looseEqual x item then Some 0
      else (case looseIndexOf xs item of None \<Rightarrow> None | Some i \<Rightarrow> Some (Suc i)))"

definition splice1 :: "nat \<Rightarrow> 'a list \<Rightarrow> 'a list" where
  "splice1 i xs = take i xs @ drop (Suc i) xs"

definition toggle :: "js_value list \<Rightarrow> tag \<Rightarrow> error + js_value list" where
  "toggle modelValue item =
     (let sel = selectedItems_get modelValue in
      case looseIndexOf sel item of
        None \<Rightarrow> selectedItems_set (sel @ [JObj item])
      | Some index \<Rightarrow> selectedItems_set (splice1 index sel))"

text \<open>The ids of the tag objects of a selection, in order.\<close>

fun tag_ids :: "js_value list \<Rightarrow> int list" where
  "tag_ids [] = []"
| "tag_ids (JObj t # vs) = tag_id t # tag_ids vs"
| "tag_ids (v # vs) = tag_ids vs"

text \<open>Entries on which every property read throws.\<close>

fun nullish :: "js_value \<Rightarrow> bool" where
  "nullish JNull = True"
| "nullish JUndefined = True"
| "nullish v = False"

text \<open>
  The toggle as the specification words it: "if present, append; if absent, remove".
\<close>

definition spec_toggle :: "js_value list \<Rightarrow> tag \<Rightarrow> js_value list" where
  "spec_toggle sel item =
     (if JObj item \<in> set sel then sel @ [JObj item] else remove1 (JObj item) sel)"

section \<open>Exclusive groups\<close>

text \<open>
  \<open>isItemDisabled(group, item)\<close>: some selected entry belongs to the group, and no
  selected entry has the item's id. The second scan runs only when the first is true.
\<close>

definition isItemDisabled :: "js_value list \<Rightarrow> group \<Rightarrow> tag \<Rightarrow> error + bool" where
  "isItemDisabled modelValue grp item =
     (case some_e (\<lambda>selectedItem.
                      case prop_tag_type_id selectedItem of
                        Inl e \<Rightarrow> Inl e
                      | Inr i \<Rightarrow> Inr (i = g_id grp))
                  (selectedItems_get modelValue) of
        Inl e \<Rightarrow> Inl e
      | Inr isItemSelectedInGroup \<Rightarrow>
          if isItemSelectedInGroup then
            (case some_e (\<lambda>selectedItem.
                            case prop_id selectedItem of
                              Inl e \<Rightarrow> Inl e
                            | Inr i \<Rightarrow> Inr (i = Some (tag_id item)))
                         (selectedItems_get modelValue) of
               Inl e \<Rightarrow> Inl e
             | Inr b \<Rightarrow> Inr (\<not> b))
          else Inr False)"

text \<open>
  The checkbox attribute \<open>:disabled="group.isExclusive && isItemDisabled(group, item)"\<close>.
\<close>

definition checkbox_disabled :: "js_value list \<Rightarrow> group \<Rightarrow> tag \<Rightarrow> error + bool" where
  "checkbox_disabled modelValue grp item =
     (if g_isExclusive grp then isItemDisabled modelValue grp item else Inr False)"

section \<open>Grouping the fetched tags\<close>

text \<open>
  \<open>convertData\<close> folds the fetched tags into \<open>groupedObject\<close>, an object without
  prototype whose property keys are the tag type ids, and then maps \<open>Object.keys\<close> of it
  to the property values. The object is modelled as the list of its properties in the
  order of their creation. The reduce step creates the property of an unseen tag type id
  from the tag's \<open>tag_type\<close>, and pushes the tag on the \<open>menuItems\<close> of its property.
\<close>

definition new_group :: "tag \<Rightarrow> group" where
  "new_group a =
     \<lparr> g_id = tt_id (tag_tag_type a),
       g_icon = tt_icon (tag_tag_type a),
       g_label = tt_name (tag_tag_type a),
       g_desc = tt_description (tag_tag_type a),
       g_color = tt_color (tag_tag_type a),
       g_isExclusive = tt_exclusive (tag_tag_type a),
       g_menuItems = [] \<rparr>"

definition push_item :: "int \<Rightarrow> tag \<Rightarrow> (int \<times> group) list \<Rightarrow> (int \<times> group) list" where
  "push_item k a r =
     map (\<lambda>(k', g). if k' = k then (k', g\<lparr>g_menuItems := g_menuItems g @ [a]\<rparr>) else (k', g)) r"

definition reduce_step :: "(int \<times> group) list \<Rightarrow> tag \<Rightarrow> (int \<times> group) list" where
  "reduce_step r a =
     (let k = tt_id (tag_tag_type a);
          r1 = (if map_of r k = None then r @ [(k, new_group a)] else r)
      in push_item k a r1)"

text \<open>
  The own property keys of an object are enumerated with the array indices first
  (the integers from 0 to \<open>2^32 - 2\<close>), in ascending numeric order, and then the other
  keys in the order of their creation. \<open>Object.keys(o).map(key => o[key])\<close> is the list of
  property values in that order.
\<close>

definition is_array_index :: "int \<Rightarrow> bool" where
  "is_array_index k = (0 \<le> k \<and> k < 4294967295)"

definition own_properties :: "(int \<times> 'a) list \<Rightarrow> (int \<times> 'a) list" where
  "own_properties r =
     sort_key fst (filter (\<lambda>e. is_array_index (fst e)) r)
       @ filter (\<lambda>e. \<not> is_array_index (fst e)) r"

definition convertData :: "tag list \<Rightarrow> group list" where
  "convertData data =
     (let groupedObject = foldl reduce_step [] data
      in map snd (own_properties groupedObject))"

text \<open>The distinct values of a list in the order of their first occurrence.\<close>

fun first_seen :: "'a list \<Rightarrow> 'a list" where
  "first_seen [] = []"
| "first_seen (x # xs) = x # filter (\<lambda>y. y \<noteq> x) (first_seen xs)"

section \<open>The tag request\<close>

record filter_expr =
  f_model :: string
  f_field :: string
  f_op :: string
  f_value :: string

record project =
  project_id :: int
  project_name :: string

datatype project_prop = ProjectNull | ProjectObject project | ProjectArray "project list"

record filters =
  fl_project :: "project list option"
  fl_tagFilter :: "filter_expr list"
  fl_tagTypeFilter :: "filter_expr list"

record filter_options =
  fo_q :: "string option"
  fo_itemsPerPage :: nat
  fo_sortBy :: "string list"
  fo_descending :: "bool list"
  fo_filters :: filters

text \<open>
  The condition on \<open>"discoverable_" + props.model\<close>; the concatenation writes a \<open>null\<close>
  model as \<open>null\<close>.
\<close>

fun discoverable_type :: "string option \<Rightarrow> filter_expr" where
  "discoverable_type (Some m) =
     \<lparr> f_model = ''TagType'', f_field = ''discoverable_'' @ m, f_op = ''=='', f_value = ''true'' \<rparr>"
| "discoverable_type None =
     \<lparr> f_model = ''TagType'', f_field = ''discoverable_null'', f_op = ''=='', f_value = ''true'' \<rparr>"

definition ALL_DISCOVERABILITY_TYPES :: "filter_expr list" where
  "ALL_DISCOVERABILITY_TYPES =
     [ \<lparr> f_model = ''TagType'', f_field = ''discoverable_incident'', f_op = ''=='', f_value = ''true'' \<rparr>,
       \<lparr> f_model = ''TagType'', f_field = ''discoverable_case'', f_op = ''=='', f_value = ''true'' \<rparr>,
       \<lparr> f_model = ''TagType'', f_field = ''discoverable_signal'', f_op = ''=='', f_value = ''true'' \<rparr>,
       \<lparr> f_model = ''TagType'', f_field = ''discoverable_query'', f_op = ''=='', f_value = ''true'' \<rparr>,
       \<lparr> f_model = ''TagType'', f_field = ''discoverable_source'', f_op = ''=='', f_value = ''true'' \<rparr> ]"

definition type_name_is :: "string \<Rightarrow> filter_expr" where
  "type_name_is tagType =
     \<lparr> f_model = ''TagType'', f_field = ''name'', f_op = ''=='', f_value = tagType \<rparr>"

text \<open>A string or \<open>null\<close> in a condition: \<open>null\<close> and the empty string are falsy.\<close>

fun truthy :: "string option \<Rightarrow> bool" where
  "truthy None = False"
| "truthy (Some s) = (s \<noteq> [])"

text \<open>
  \<open>s.split("/")\<close>: the first part and the list of the parts after it. The destructuring
  \<open>let [tagType, query] = ...\<close> takes the first part and the second, \<open>undefined\<close> when there
  is none.
\<close>

fun split_on :: "char \<Rightarrow> string \<Rightarrow> string \<times> string list" where
  "split_on c [] = ([], [])"
| "split_on c (x # xs) =
     (case split_on c xs of
        (p, ps) \<Rightarrow> if x = c then ([], p # ps) else (x # p, ps))"

text \<open>
  \<open>fetchData\<close> builds the table options that go through
  \<open>SearchUtils.createParametersFromTableOptions\<close> to \<open>TagApi.getAll\<close>. It reads
  \<open>props.project\<close> and \<open>props.model\<close>; the component's \<open>searchQuery\<close> is in scope and is
  carried as an argument. The text query starts as \<open>q: null\<close> in the local
  \<open>filterOptions\<close>; the branch that splits it runs when it is a non-empty string with a
  slash in it.
\<close>

definition fetchData_request :: "project_prop \<Rightarrow> string option \<Rightarrow> string \<Rightarrow> filter_options" where
  "fetchData_request props_project props_model searchQuery =
     (let q0 = (None :: string option);
          fproject =
            (case props_project of
               ProjectNull \<Rightarrow> None
             | ProjectArray ps \<Rightarrow> if length ps > 0 then Some ps else None
             | ProjectObject p \<Rightarrow> Some [p]);
          tagFilter =
            [\<lparr> f_model = ''Tag'', f_field = ''discoverable'', f_op = ''=='', f_value = ''true'' \<rparr>];
          without_slash =
            (q0,
             (if truthy props_model
              then [discoverable_type props_model]
              else ALL_DISCOVERABILITY_TYPES));
          (q1, tagTypeFilter) =
            (case q0 of
               None \<Rightarrow> without_slash
             | Some s \<Rightarrow>
                 if s \<noteq> [] \<and> CHR ''/'' \<in> set s then
                   (case split_on CHR ''/'' s of
                      (tagType, rest) \<Rightarrow>
                        ((case rest of [] \<Rightarrow> None | query # _ \<Rightarrow> Some query),
                         (if truthy props_model
                          then [type_name_is tagType, discoverable_type props_model]
                          else type_name_is tagType # ALL_DISCOVERABILITY_TYPES)))
                 else without_slash)
      in \<lparr> fo_q = q1,
           fo_itemsPerPage = 100,
           fo_sortBy = [''tag_type.name''],
           fo_descending = [False],
           fo_filters =
             \<lparr> fl_project = fproject, fl_tagFilter = tagFilter, fl_tagTypeFilter = tagTypeFilter \<rparr> \<rparr>)"

text \<open>
  What the specification asks of the request for a local search query that contains a
  slash: the remainder is the text query, and the tag type filter holds the exact-match
  condition on the type name.
\<close>

definition spec_slash_request :: "string \<Rightarrow> filter_options \<Rightarrow> bool" where
  "spec_slash_request searchQuery opts =
     (case split_on CHR ''/'' searchQuery of
        (typeName, rest) \<Rightarrow>
          (case rest of
             [] \<Rightarrow> False
           | remainder # _ \<Rightarrow>
               fo_q opts = Some remainder
               \<and> type_name_is typeName \<in> set (fl_tagTypeFilter (fo_filters opts))))"

section \<open>Search\<close>


definition is_upper :: "char \<Rightarrow> bool" where
  "is_upper c = (65 \<le> (of_char c :: nat) \<and> (of_char c :: nat) \<le> 90)"

definition toLowerCase_char :: "char \<Rightarrow> char" where
  "toLowerCase_char c = (if is_upper c then char_of ((of_char c :: nat) + 32) else c)"

definition toLowerCase :: "string \<Rightarrow> string" where
  "toLowerCase s = map toLowerCase_char s"

text \<open>\<open>s.includes(q)\<close>: \<open>q\<close> occurs in \<open>s\<close> at some position.\<close>

fun includes_str :: "string \<Rightarrow> string \<Rightarrow> bool" where
  "includes_str [] q = (q = [])"
| "includes_str (c # cs) q = (prefix q (c # cs) \<or> includes_str cs q)"

text \<open>
  \<open>performSearch\<close> empties \<open>filteredMenuItems\<close> and pushes, group after group, the menu
  items whose lower-cased name includes the lower-cased \<open>searchQuery\<close>.
\<close>

definition performSearch :: "group list \<Rightarrow> string \<Rightarrow> tag list" where
  "performSearch groups searchQuery =
     foldl (\<lambda>filteredMenuItems grp.
              filteredMenuItems
                @ filter (\<lambda>item. includes_str (toLowerCase (tag_name item)) (toLowerCase searchQuery))
                    (g_menuItems grp))
           [] groups"





section \<open>Copying the selection\<close>

text \<open>
  The template literal \<open>`${item.tag_type.name}/${item.name}`\<close>; on an entry that is not a
  tag object \<open>item.tag_type\<close> is \<open>undefined\<close> (or the read itself throws) and the chain
  raises a \<open>TypeError\<close>.
\<close>

fun tag_label :: "js_value \<Rightarrow> error + string" where
  "tag_label (JObj t) = Inr (tt_name (tag_tag_type t) @ ''/'' @ tag_name t)"
| "tag_label v = Inl TypeError"

fun map_e :: "('a \<Rightarrow> error + 'b) \<Rightarrow> 'a list \<Rightarrow> error + 'b list" where
  "map_e f [] = Inr []"
| "map_e f (x # xs) =
     (case f x of
        Inl e \<Rightarrow> Inl e
      | Inr y \<Rightarrow> (case map_e f xs of Inl e \<Rightarrow> Inl e | Inr ys \<Rightarrow> Inr (y # ys)))"

text \<open>\<open>xs.join(sep)\<close> on an array of strings.\<close>

fun join :: "string \<Rightarrow> string list \<Rightarrow> string" where
  "join sep [] = []"
| "join sep [x] = x"
| "join sep (x # y # ys) = x @ sep @ join sep (y # ys)"

text \<open>
  The effects of \<open>copyTags\<close>: the text handed to \<open>navigator.clipboard.writeText\<close> and the
  \<open>snackbar\<close> flag that shows the "Tags copied to the clipboard" notification.
\<close>

record ui_state =
  clipboard :: "string option"
  snackbar :: bool

definition copyTags :: "js_value list \<Rightarrow> ui_state \<Rightarrow> error + ui_state" where
  "copyTags modelValue st =
     (case map_e tag_label (selectedItems_get modelValue) of
        Inl e \<Rightarrow> Inl e
      | Inr tags \<Rightarrow> Inr (st\<lparr> clipboard := Some (join '', '' tags), snackbar := True \<rparr>))"

section \<open>Example data\<close>

text \<open>
  Two tag types as the API returns them when sorted by \<open>tag_type.name\<close>, and tags of
  them. \<open>tag_P1_renamed\<close> is the tag with the id of \<open>tag_P1\<close> under an older name, as a
  host may still hold it in its selection.
\<close>

definition priority_type :: tag_type where
  "priority_type =
     \<lparr> tt_id = 2, tt_name = ''priority'', tt_description = ''How urgent'',
       tt_icon = None, tt_color = ''#d32f2f'', tt_exclusive = True \<rparr>"

definition severity_type :: tag_type where
  "severity_type =
     \<lparr> tt_id = 1, tt_name = ''severity'', tt_description = ''How bad'',
       tt_icon = Some ''alert'', tt_color = ''#1976d2'', tt_exclusive = False \<rparr>"

definition tag_P1 :: tag where
  "tag_P1 = \<lparr> tag_id = 10, tag_name = ''P1'', tag_color = ''#d32f2f'', tag_tag_type = priority_type \<rparr>"

definition tag_P2 :: tag where
  "tag_P2 = \<lparr> tag_id = 11, tag_name = ''P2'', tag_color = ''#d32f2f'', tag_tag_type = priority_type \<rparr>"

definition tag_P1_renamed :: tag where
  "tag_P1_renamed = \<lparr> tag_id = 10, tag_name = ''P1 (old)'', tag_color = ''#d32f2f'', tag_tag_type = priority_type \<rparr>"

definition tag_sev1 :: tag where
  "tag_sev1 = \<lparr> tag_id = 20, tag_name = ''sev1'', tag_color = ''#1976d2'', tag_tag_type = severity_type \<rparr>"

definition named_tag :: "int \<Rightarrow> string \<Rightarrow> tag" where
  "named_tag i n = \<lparr> tag_id = i, tag_name = n, tag_color = [], tag_tag_type = severity_type \<rparr>"

definition group_of :: "tag_type \<Rightarrow> tag list \<Rightarrow> group" where
  "group_of tt items =
     \<lparr> g_id = tt_id tt, g_icon = tt_icon tt, g_label = tt_name tt, g_desc = tt_description tt,
       g_color = tt_color tt, g_isExclusive = tt_exclusive tt, g_menuItems = items \<rparr>"

section \<open>The grouping the specification describes\<close>

abbreviation type_id :: "tag \<Rightarrow> int" where
  "type_id a \<equiv> tt_id (tag_tag_type a)"

text \<open>
  The group of a tag type id among the fetched tags, in the specification's words: its
  menu items are all and only the fetched tags with that \<open>tag_type.id\<close>, in fetch order,
  and its metadata is copied from the first of them.
\<close>

definition spec_group :: "tag list \<Rightarrow> int \<Rightarrow> group" where
  "spec_group data k =
     (let items = filter (\<lambda>a. type_id a = k) data
      in (new_group (hd items))\<lparr>g_menuItems := items\<rparr>)"

section \<open>Facts about the list operations\<close>

lemma error_is_TypeError: "(e :: error) = TypeError"
  by (cases e) simp

lemma filter_e_total:
  "list_all (\<lambda>x. p x \<noteq> Inl TypeError) xs \<Longrightarrow> filter_e p xs = Inr (filter (\<lambda>x. p x = Inr True) xs)"
proof (induction xs)
  case Nil
  then show ?case by simp
next
  case (Cons x xs)
  then obtain b where "p x = Inr b"
    by (cases "p x") (auto, metis error.exhaust)
  with Cons show ?case by (cases b) auto
qed

lemma filter_e_error:
  "list_ex (\<lambda>x. p x = Inl TypeError) xs \<Longrightarrow> filter_e p xs = Inl TypeError"
proof (induction xs)
  case Nil
  then show ?case by simp
next
  case (Cons x xs)
  show ?case
  proof (cases "p x")
    case (Inl e)
    then show ?thesis by (cases e) simp
  next
    case (Inr b)
    with Cons show ?thesis by auto
  qed
qed

lemma tag_ids_filter_subset: "set (tag_ids (filter P vs)) \<subseteq> set (tag_ids vs)"
  by (induction vs rule: tag_ids.induct) auto

lemma tag_ids_filter_distinct: "distinct (tag_ids vs) \<Longrightarrow> distinct (tag_ids (filter P vs))"
proof (induction vs rule: tag_ids.induct)
  case (2 t vs)
  then show ?case using tag_ids_filter_subset [of P vs] by auto
qed auto

lemma tag_ids_remove1_subset: "set (tag_ids (remove1 v vs)) \<subseteq> set (tag_ids vs)"
  by (induction vs rule: tag_ids.induct) auto

lemma tag_ids_remove1_distinct: "distinct (tag_ids vs) \<Longrightarrow> distinct (tag_ids (remove1 v vs))"
proof (induction vs rule: tag_ids.induct)
  case (2 t vs)
  then show ?case using tag_ids_remove1_subset [of v vs] by auto
qed auto

lemma tag_ids_append: "tag_ids (xs @ ys) = tag_ids xs @ tag_ids ys"
  by (induction xs rule: tag_ids.induct) auto

lemma tag_ids_drop_first_subset:
  "set (tag_ids (takeWhile Q vs @ drop 1 (dropWhile Q vs))) \<subseteq> set (tag_ids vs)"
  by (induction vs rule: tag_ids.induct) auto

lemma tag_ids_drop_first_distinct:
  "distinct (tag_ids vs) \<Longrightarrow> distinct (tag_ids (takeWhile Q vs @ drop 1 (dropWhile Q vs)))"
proof (induction vs rule: tag_ids.induct)
  case (2 t vs)
  then show ?case using tag_ids_drop_first_subset [of Q vs] by auto
qed auto

section \<open>The setter, toggling and removing\<close>

lemma looseEqual_refl: "looseEqual (JObj t) t"
  by (simp add: looseEqual_tag_def looseEqual_tag_type_def)

lemma looseIndexOf_eq:
  "looseIndexOf xs item =
     (if list_ex (\<lambda>v. looseEqual v item) xs
      then Some (length (takeWhile (\<lambda>v. \<not> looseEqual v item) xs))
      else None)"
  by (induction xs) auto

lemma splice1_takeWhile:
  "splice1 (length (takeWhile Q xs)) xs = takeWhile Q xs @ drop 1 (dropWhile Q xs)"
  by (induction xs) (auto simp: splice1_def)

lemma toggle_eq:
  "toggle sel item =
     Inr (filter (\<lambda>v. \<not> typeof_string v)
            (if list_ex (\<lambda>v. looseEqual v item) sel
             then takeWhile (\<lambda>v. \<not> looseEqual v item) sel
                    @ drop 1 (dropWhile (\<lambda>v. \<not> looseEqual v item) sel)
             else sel @ [JObj item]))"
  by (simp add: toggle_def selectedItems_get_def selectedItems_set_def looseIndexOf_eq
      splice1_takeWhile)

text \<open>
  A selected tag that differs from the menu item only in a missing icon against the
  icon named \<open>null\<close> is found by the lookup, and the click removes it.
\<close>

lemma toggle_loosely_equal_entry:
  "toggle [JObj (tag_P1\<lparr>tag_tag_type := priority_type\<lparr>tt_icon := Some ''null''\<rparr>\<rparr>)] tag_P1 = Inr []"
  by (simp add: toggle_def selectedItems_get_def selectedItems_set_def splice1_def
      looseEqual_tag_def looseEqual_tag_type_def tag_P1_def priority_type_def)

lemma prop_id_error: "prop_id v = Inl TypeError \<longleftrightarrow> nullish v"
  by (cases v) auto

text \<open>
  \<open>removeItem\<close> throws on a \<open>null\<close> or \<open>undefined\<close> entry; otherwise it emits the
  entries that are not strings and whose \<open>id\<close> is not the one removed.
\<close>

lemma removeItem_eq:
  "removeItem sel i =
     (if list_ex nullish sel then Inl TypeError
      else Inr (filter (\<lambda>v. \<not> typeof_string v) (filter (\<lambda>v. prop_id v \<noteq> Inr (Some i)) sel)))"
proof (cases "list_ex nullish sel")
  case True
  then have "list_ex (\<lambda>item. (case prop_id item of Inl e \<Rightarrow> Inl e | Inr j \<Rightarrow> Inr (j \<noteq> Some i)) = Inl TypeError) sel"
    by (induction sel) (auto simp: prop_id_error [symmetric])
  then show ?thesis using True
    by (simp add: removeItem_def selectedItems_get_def filter_e_error)
next
  case False
  then have "list_all (\<lambda>item. (case prop_id item of Inl e \<Rightarrow> Inl e | Inr j \<Rightarrow> Inr (j \<noteq> Some i)) \<noteq> Inl TypeError) sel"
    by (induction sel) (auto simp: prop_id_error [symmetric] split: sum.splits)
  moreover have "filter (\<lambda>item. (case prop_id item of Inl e \<Rightarrow> Inl e | Inr j \<Rightarrow> Inr (j \<noteq> Some i)) = Inr True) sel
      = filter (\<lambda>v. prop_id v \<noteq> Inr (Some i)) sel"
    using False by (induction sel) (auto simp: prop_id_error [symmetric] error_is_TypeError split: sum.splits)
  ultimately have "filter_e (\<lambda>item. case prop_id item of Inl e \<Rightarrow> Inl e | Inr j \<Rightarrow> Inr (j \<noteq> Some i)) sel
      = Inr (filter (\<lambda>v. prop_id v \<noteq> Inr (Some i)) sel)"
    by (simp only: filter_e_total)
  then show ?thesis using False
    by (simp add: removeItem_def selectedItems_get_def selectedItems_set_def del: filter_filter)
qed

text \<open>
  C8. Whatever array is assigned to \<open>selectedItems\<close>, the setter raises no error and
  emits the array without its string entries: the entries that are not strings are
  emitted as they are and in their order, and no string is left in the payload.
\<close>

theorem selectedItems_set_filters_strings:
  "\<exists>tags. selectedItems_set val = Inr tags
     \<and> tags = filter (\<lambda>v. \<not> typeof_string v) val
     \<and> \<not> list_ex typeof_string tags"
  by (simp add: selectedItems_set_def list_ex_iff)

text \<open>
  C5, as the code has it. Toggling an item removes the first selected entry that is
  loosely equal to it when there is one, and appends the item when there is none; the
  resulting array, without its string entries, is emitted as the new selection.
\<close>

theorem toggle_appends_absent_removes_present:
  "toggle sel item =
     Inr (filter (\<lambda>v. \<not> typeof_string v)
            (if list_ex (\<lambda>v. looseEqual v item) sel
             then takeWhile (\<lambda>v. \<not> looseEqual v item) sel
                    @ drop 1 (dropWhile (\<lambda>v. \<not> looseEqual v item) sel)
             else sel @ [JObj item]))"
  by (rule toggle_eq)

text \<open>
  C5, as the specification words it ("if present, append; if absent, remove"), fails:
  toggling the one selected tag does not append it, and toggling a tag on the empty
  selection does not leave the selection empty.
\<close>

theorem toggle_not_spec_toggle:
  "toggle [JObj tag_P1] tag_P1 \<noteq> Inr (spec_toggle [JObj tag_P1] tag_P1)
   \<and> toggle [] tag_P1 \<noteq> Inr (spec_toggle [] tag_P1)"
  by (simp add: toggle_def selectedItems_get_def selectedItems_set_def splice1_def spec_toggle_def
      looseEqual_tag_def looseEqual_tag_type_def)

text \<open>
  C1 fails as stated. Toggling a tag whose id is selected under other field values
  appends a second tag with that id, and removing an id from a selection that holds the
  same tag twice emits both copies.
\<close>

theorem duplicate_ids_emitted:
  "toggle [JObj tag_P1_renamed] tag_P1 = Inr [JObj tag_P1_renamed, JObj tag_P1]
   \<and> \<not> distinct (tag_ids [JObj tag_P1_renamed, JObj tag_P1])
   \<and> removeItem [JObj tag_P1, JObj tag_P1] 11 = Inr [JObj tag_P1, JObj tag_P1]
   \<and> \<not> distinct (tag_ids [JObj tag_P1, JObj tag_P1])"
  by (simp add: toggle_def selectedItems_get_def selectedItems_set_def removeItem_def
      looseEqual_tag_def looseEqual_tag_type_def tag_P1_def tag_P1_renamed_def)

text \<open>
  C1, amended. From a selection in which no two tags share an id: removing an id either
  throws on a \<open>null\<close> or \<open>undefined\<close> entry (nothing is emitted) or emits a selection in which
  no two tags share an id; and toggling a tag that is deeply equal to a selected entry, or
  whose id no selected tag has, emits a selection in which no two tags share an id.
\<close>

theorem distinct_ids_preserved:
  assumes "distinct (tag_ids sel)"
  shows "(list_ex nullish sel \<and> removeItem sel i = Inl TypeError
          \<or> (\<exists>out. removeItem sel i = Inr out \<and> distinct (tag_ids out)))
       \<and> (JObj t \<in> set sel \<or> tag_id t \<notin> set (tag_ids sel)
          \<longrightarrow> (\<exists>out. toggle sel t = Inr out \<and> distinct (tag_ids out)))"
proof (intro conjI impI)
  show "list_ex nullish sel \<and> removeItem sel i = Inl TypeError
          \<or> (\<exists>out. removeItem sel i = Inr out \<and> distinct (tag_ids out))"
    using assms by (simp add: removeItem_eq tag_ids_filter_distinct)
next
  assume c: "JObj t \<in> set sel \<or> tag_id t \<notin> set (tag_ids sel)"
  show "\<exists>out. toggle sel t = Inr out \<and> distinct (tag_ids out)"
  proof (cases "list_ex (\<lambda>v. looseEqual v t) sel")
    case True
    from assms
    have "distinct (tag_ids (takeWhile (\<lambda>v. \<not> looseEqual v t) sel
                               @ drop 1 (dropWhile (\<lambda>v. \<not> looseEqual v t) sel)))"
      by (rule tag_ids_drop_first_distinct)
    then have "distinct (tag_ids (filter (\<lambda>v. \<not> typeof_string v)
                 (takeWhile (\<lambda>v. \<not> looseEqual v t) sel
                    @ drop 1 (dropWhile (\<lambda>v. \<not> looseEqual v t) sel))))"
      by (rule tag_ids_filter_distinct)
    with True show ?thesis
      by (simp only: toggle_eq if_True) blast
  next
    case False
    then have "JObj t \<notin> set sel"
      using looseEqual_refl [of t] by (auto simp: list_ex_iff)
    with c have "tag_id t \<notin> set (tag_ids sel)" by simp
    with assms have "distinct (tag_ids (sel @ [JObj t]))"
      by (simp add: tag_ids_append)
    then have "distinct (tag_ids (filter (\<lambda>v. \<not> typeof_string v) (sel @ [JObj t])))"
      by (rule tag_ids_filter_distinct)
    with False show ?thesis
      by (simp add: toggle_eq)
  qed
qed

theorem distinct_ids_preserved_witness:
  "distinct (tag_ids [JObj tag_P1, JStr ''x'', JObj tag_sev1])
   \<and> removeItem [JObj tag_P1, JStr ''x'', JObj tag_sev1] 10 = Inr [JObj tag_sev1]
   \<and> toggle [JObj tag_P1, JStr ''x'', JObj tag_sev1] tag_P2 = Inr [JObj tag_P1, JObj tag_sev1, JObj tag_P2]"
  using distinct_ids_preserved [of "[JObj tag_P1, JStr ''x'', JObj tag_sev1]" 10 tag_P2]
  by (simp add: toggle_def selectedItems_get_def selectedItems_set_def removeItem_def
      looseEqual_tag_def looseEqual_tag_type_def tag_P1_def tag_P2_def tag_sev1_def)

section \<open>Disabled checkboxes\<close>

lemma some_tag_type_id:
  "some_e (\<lambda>selectedItem. case prop_tag_type_id selectedItem of Inl e \<Rightarrow> Inl e | Inr i \<Rightarrow> Inr (i = k))
     (map JObj sel) = Inr (list_ex (\<lambda>s. tt_id (tag_tag_type s) = k) sel)"
  by (induction sel) auto

lemma some_id:
  "some_e (\<lambda>selectedItem. case prop_id selectedItem of Inl e \<Rightarrow> Inl e | Inr i \<Rightarrow> Inr (i = Some k))
     (map JObj sel) = Inr (list_ex (\<lambda>s. tag_id s = k) sel)"
  by (induction sel) auto

lemma isItemDisabled_tags:
  "isItemDisabled (map JObj sel) G T =
     Inr (list_ex (\<lambda>s. tt_id (tag_tag_type s) = g_id G) sel \<and> \<not> list_ex (\<lambda>s. tag_id s = tag_id T) sel)"
  by (simp add: isItemDisabled_def selectedItems_get_def some_tag_type_id some_id)

text \<open>
  C2. For an exclusive group \<open>G\<close>, a selection of tags and any item \<open>T\<close>: the checkbox of
  \<open>T\<close> is disabled exactly when some selected tag has the tag type id of \<open>G\<close> and no
  selected tag has the id of \<open>T\<close>. In particular, when a tag \<open>S\<close> of \<open>G\<close> is selected, \<open>S\<close>
  itself stays enabled and every tag whose id is not selected is disabled.
\<close>

theorem exclusive_group_disables_unselected:
  assumes "g_isExclusive G"
  shows "checkbox_disabled (map JObj sel) G T =
           Inr ((\<exists>s\<in>set sel. tt_id (tag_tag_type s) = g_id G) \<and> \<not> (\<exists>s\<in>set sel. tag_id s = tag_id T))
       \<and> (S \<in> set sel \<and> tt_id (tag_tag_type S) = g_id G \<longrightarrow>
            checkbox_disabled (map JObj sel) G S = Inr False
            \<and> (tag_id T \<notin> tag_id ` set sel \<longrightarrow> checkbox_disabled (map JObj sel) G T = Inr True))"
  using assms by (auto simp: checkbox_disabled_def isItemDisabled_tags list_ex_iff image_iff)

theorem exclusive_group_disables_unselected_witness:
  "g_isExclusive (group_of priority_type [tag_P1, tag_P2])
   \<and> checkbox_disabled (map JObj [tag_P1]) (group_of priority_type [tag_P1, tag_P2]) tag_P2 = Inr True
   \<and> checkbox_disabled (map JObj [tag_P1]) (group_of priority_type [tag_P1, tag_P2]) tag_P1 = Inr False"
  using exclusive_group_disables_unselected
    [of "group_of priority_type [tag_P1, tag_P2]" "[tag_P1]" tag_P2 tag_P1]
  by (simp add: group_of_def priority_type_def tag_P1_def tag_P2_def)

text \<open>
  C10. In a group that is not exclusive no checkbox is disabled, whatever the selection
  holds: \<open>isItemDisabled\<close> is not evaluated, so even a selection on which it would throw
  gives an enabled checkbox.
\<close>

theorem non_exclusive_group_never_disabled:
  "\<not> g_isExclusive G \<Longrightarrow> checkbox_disabled modelValue G T = Inr False"
  by (simp add: checkbox_disabled_def)

theorem non_exclusive_group_never_disabled_witness:
  "\<not> g_isExclusive (group_of severity_type [tag_sev1])
   \<and> checkbox_disabled [JNull, JObj tag_sev1] (group_of severity_type [tag_sev1]) tag_sev1 = Inr False
   \<and> isItemDisabled [JNull, JObj tag_sev1] (group_of severity_type [tag_sev1]) tag_sev1 = Inl TypeError"
  using non_exclusive_group_never_disabled
    [of "group_of severity_type [tag_sev1]" "[JNull, JObj tag_sev1]" tag_sev1]
  by (simp add: group_of_def severity_type_def isItemDisabled_def selectedItems_get_def)

section \<open>Copying\<close>

lemma map_e_tag_label:
  "map_e tag_label (map JObj sel) = Inr (map (\<lambda>t. tt_name (tag_tag_type t) @ ''/'' @ tag_name t) sel)"
  by (induction sel) auto

lemma copyTags_tags:
  "copyTags (map JObj sel) st =
     Inr (st\<lparr> clipboard := Some (join '', '' (map (\<lambda>t. tt_name (tag_tag_type t) @ ''/'' @ tag_name t) sel)),
              snackbar := True \<rparr>)"
  by (simp add: copyTags_def selectedItems_get_def map_e_tag_label)

lemma copyTags_example:
  "copyTags [JObj (a\<lparr> tag_name := ''P1'', tag_tag_type := ta\<lparr> tt_name := ''priority'' \<rparr> \<rparr>),
             JObj (b\<lparr> tag_name := ''sev1'', tag_tag_type := tb\<lparr> tt_name := ''severity'' \<rparr> \<rparr>)] st
     = Inr (st\<lparr> clipboard := Some ''priority/P1, severity/sev1'', snackbar := True \<rparr>)"
  by (simp add: copyTags_def selectedItems_get_def)

text \<open>
  C9. For every selection of tags, \<open>copyTags\<close> hands the clipboard the labels
  \<open>tag_type.name/name\<close> of the selected tags, in selection order, joined by a comma and a
  space, and raises the snackbar flag. For a tag named \<open>P1\<close> of type \<open>priority\<close> followed
  by a tag named \<open>sev1\<close> of type \<open>severity\<close> the text is \<open>priority/P1, severity/sev1\<close>.
\<close>

theorem copyTags_writes_labels:
  "copyTags (map JObj sel) st =
     Inr (st\<lparr> clipboard := Some (join '', '' (map (\<lambda>t. tt_name (tag_tag_type t) @ ''/'' @ tag_name t) sel)),
              snackbar := True \<rparr>)
   \<and> copyTags [JObj (a\<lparr> tag_name := ''P1'', tag_tag_type := ta\<lparr> tt_name := ''priority'' \<rparr> \<rparr>),
               JObj (b\<lparr> tag_name := ''sev1'', tag_tag_type := tb\<lparr> tt_name := ''severity'' \<rparr> \<rparr>)] st
     = Inr (st\<lparr> clipboard := Some ''priority/P1, severity/sev1'', snackbar := True \<rparr>)"
  using copyTags_tags copyTags_example by (rule conjI)

section \<open>Searching\<close>














lemma lower_chars:
  "toLowerCase ''Alpha'' = ''alpha''" "toLowerCase ''Box'' = ''box''" "toLowerCase ''Exit'' = ''exit''"
  "toLowerCase ''x'' = ''x''" "toLowerCase ''lo'' = ''lo''"
  by (simp_all add: toLowerCase_def toLowerCase_char_def is_upper_def char_of_eq_iff)

text \<open>
  C7, amended. The query \<open>x\<close> over items named \<open>Alpha\<close>, \<open>Box\<close>, \<open>Exit\<close> yields the
  items named \<open>Box\<close> and \<open>Exit\<close>; the query \<open>lo\<close> over items named \<open>Alpha\<close>, \<open>Box\<close>
  yields no item.
\<close>

theorem performSearch_examples:
  "performSearch [g\<lparr> g_menuItems := [a\<lparr> tag_name := ''Alpha'' \<rparr>, b\<lparr> tag_name := ''Box'' \<rparr>,
                                     c\<lparr> tag_name := ''Exit'' \<rparr>] \<rparr>] ''x''
     = [b\<lparr> tag_name := ''Box'' \<rparr>, c\<lparr> tag_name := ''Exit'' \<rparr>]
   \<and> performSearch [g\<lparr> g_menuItems := [a\<lparr> tag_name := ''Alpha'' \<rparr>, b\<lparr> tag_name := ''Box'' \<rparr>] \<rparr>] ''lo''
     = []"
  by (simp add: performSearch_def lower_chars)

text \<open>
  C7 fails as stated: \<open>alpha\<close> does not contain \<open>lo\<close>, so the query \<open>lo\<close> over
  \<open>Alpha\<close>, \<open>Box\<close> does not yield the item named \<open>Alpha\<close>.
\<close>

theorem performSearch_lo_not_Alpha:
  "performSearch [group_of severity_type [named_tag 1 ''Alpha'', named_tag 2 ''Box'']] ''lo''
     \<noteq> [named_tag 1 ''Alpha'']"
  by (simp add: performSearch_def lower_chars group_of_def named_tag_def)

section \<open>Grouping\<close>

lemma set_first_seen: "set (first_seen xs) = set xs"
  by (induction xs) auto

lemma distinct_first_seen: "distinct (first_seen xs)"
  by (induction xs) (auto simp: set_first_seen)

lemma first_seen_snoc:
  "first_seen (xs @ [x]) = (if x \<in> set xs then first_seen xs else first_seen xs @ [x])"
  by (induction xs) auto

lemma map_of_keyed:
  "map_of (map (\<lambda>k. (k, f k)) ks) k = (if k \<in> set ks then Some (f k) else None)"
  by (induction ks) auto

lemma push_item_keyed:
  "push_item k a (map (\<lambda>k'. (k', f k')) ks)
     = map (\<lambda>k'. (k', if k' = k then (f k')\<lparr>g_menuItems := g_menuItems (f k') @ [a]\<rparr> else f k')) ks"
  by (simp add: push_item_def)

lemma type_id_seen_iff:
  "k \<in> set (map type_id xs) \<longleftrightarrow> filter (\<lambda>a. type_id a = k) xs \<noteq> []"
  by (induction xs) auto

lemma spec_group_snoc_other:
  "k \<noteq> type_id x \<Longrightarrow> spec_group (xs @ [x]) k = spec_group xs k"
  by (simp add: spec_group_def Let_def)

lemma spec_group_snoc_seen:
  assumes "type_id x \<in> set (map type_id xs)"
  shows "spec_group (xs @ [x]) (type_id x)
           = (spec_group xs (type_id x))\<lparr>g_menuItems := g_menuItems (spec_group xs (type_id x)) @ [x]\<rparr>"
proof -
  have "filter (\<lambda>a. type_id a = type_id x) xs \<noteq> []"
    using type_id_seen_iff [of "type_id x" xs] assms by blast
  then show ?thesis by (simp add: spec_group_def Let_def)
qed

lemma spec_group_snoc_new:
  assumes "type_id x \<notin> set (map type_id xs)"
  shows "spec_group (xs @ [x]) (type_id x)
           = (new_group x)\<lparr>g_menuItems := g_menuItems (new_group x) @ [x]\<rparr>"
proof -
  have "filter (\<lambda>a. type_id a = type_id x) xs = []"
    using type_id_seen_iff [of "type_id x" xs] assms by blast
  then show ?thesis by (simp add: spec_group_def new_group_def Let_def)
qed

lemma reduce_step_seen:
  assumes "type_id x \<in> set (map type_id xs)"
  shows "reduce_step (map (\<lambda>k. (k, spec_group xs k)) (first_seen (map type_id xs))) x
     = map (\<lambda>k. (k, spec_group (xs @ [x]) k)) (first_seen (map type_id (xs @ [x])))"
proof -
  have "reduce_step (map (\<lambda>k. (k, spec_group xs k)) (first_seen (map type_id xs))) x
      = map (\<lambda>k'. (k', if k' = type_id x
                          then (spec_group xs k')\<lparr>g_menuItems := g_menuItems (spec_group xs k') @ [x]\<rparr>
                          else spec_group xs k')) (first_seen (map type_id xs))"
    using assms
    by (simp only: reduce_step_def Let_def map_of_keyed set_first_seen push_item_keyed if_True option.simps if_False)
  also have "\<dots> = map (\<lambda>k. (k, spec_group (xs @ [x]) k)) (first_seen (map type_id xs))"
    by (rule map_cong) (simp_all add: spec_group_snoc_seen [OF assms] spec_group_snoc_other)
  finally show ?thesis using assms by (simp only: first_seen_snoc map_append list.map if_True)
qed

lemma reduce_step_new:
  assumes "type_id x \<notin> set (map type_id xs)"
  shows "reduce_step (map (\<lambda>k. (k, spec_group xs k)) (first_seen (map type_id xs))) x
     = map (\<lambda>k. (k, spec_group (xs @ [x]) k)) (first_seen (map type_id (xs @ [x])))"
proof -
  have "reduce_step (map (\<lambda>k. (k, spec_group xs k)) (first_seen (map type_id xs))) x
      = push_item (type_id x) x
          (map (\<lambda>k. (k, spec_group xs k)) (first_seen (map type_id xs)) @ [(type_id x, new_group x)])"
    using assms
    by (simp only: reduce_step_def Let_def map_of_keyed set_first_seen if_True if_False refl)
  also have "\<dots> = map (\<lambda>k'. (k', if k' = type_id x
                          then (spec_group xs k')\<lparr>g_menuItems := g_menuItems (spec_group xs k') @ [x]\<rparr>
                          else spec_group xs k')) (first_seen (map type_id xs))
                   @ [(type_id x, (new_group x)\<lparr>g_menuItems := g_menuItems (new_group x) @ [x]\<rparr>)]"
    by (simp add: push_item_def)
  also have "map (\<lambda>k'. (k', if k' = type_id x
                          then (spec_group xs k')\<lparr>g_menuItems := g_menuItems (spec_group xs k') @ [x]\<rparr>
                          else spec_group xs k')) (first_seen (map type_id xs))
           = map (\<lambda>k. (k, spec_group (xs @ [x]) k)) (first_seen (map type_id xs))"
  proof (rule map_cong [OF refl])
    fix k assume "k \<in> set (first_seen (map type_id xs))"
    with assms have "k \<noteq> type_id x" by (auto simp only: set_first_seen)
    then show "(k, if k = type_id x
                   then (spec_group xs k)\<lparr>g_menuItems := g_menuItems (spec_group xs k) @ [x]\<rparr>
                   else spec_group xs k) = (k, spec_group (xs @ [x]) k)"
      by (simp add: spec_group_snoc_other)
  qed
  finally show ?thesis
    using assms spec_group_snoc_new [OF assms] by (simp add: first_seen_snoc)
qed

lemma groupedObject_keyed:
  "foldl reduce_step [] data = map (\<lambda>k. (k, spec_group data k)) (first_seen (map type_id data))"
proof (induction data rule: rev_induct)
  case Nil
  then show ?case by simp
next
  case (snoc x xs)
  show ?case
  proof (cases "type_id x \<in> set (map type_id xs)")
    case True
    from snoc show ?thesis by (simp only: foldl_append foldl.simps reduce_step_seen [OF True])
  next
    case False
    from snoc show ?thesis by (simp only: foldl_append foldl.simps reduce_step_new [OF False])
  qed
qed


lemma map_fst_insort_key: "map fst (insort_key fst e es) = insort (fst e) (map fst es)"
  by (induction es) auto

lemma map_fst_sort_key: "map fst (sort_key fst es) = sort (map fst es)"
  by (induction es) (auto simp: map_fst_insort_key)

lemma set_own_properties: "set (own_properties r) = set r"
  by (auto simp: own_properties_def)

lemma map_fst_own_properties:
  "map fst (own_properties r)
     = sort (filter is_array_index (map fst r)) @ filter (\<lambda>k. \<not> is_array_index k) (map fst r)"
  by (simp add: own_properties_def map_fst_sort_key filter_map comp_def)

lemma g_id_spec_group:
  assumes "k \<in> set (map type_id data)"
  shows "g_id (spec_group data k) = k"
proof -
  have "filter (\<lambda>a. type_id a = k) data \<noteq> []"
    using type_id_seen_iff [of k data] assms by blast
  then have "hd (filter (\<lambda>a. type_id a = k) data) \<in> set (filter (\<lambda>a. type_id a = k) data)"
    by (rule hd_in_set)
  then show ?thesis by (simp add: spec_group_def Let_def new_group_def)
qed

lemma own_properties_keyed:
  assumes "list_all (\<lambda>e. g_id (snd e) = fst e) r"
  shows "map g_id (map snd (own_properties r)) = map fst (own_properties r)"
proof -
  from assms have "\<forall>e \<in> set (own_properties r). g_id (snd e) = fst e"
    by (simp add: set_own_properties list_all_iff)
  then show ?thesis by simp
qed

text \<open>
  The groups of \<open>convertData\<close>: one per tag type id among the fetched tags, each the
  group the specification describes; their order is that of \<open>Object.keys\<close>.
\<close>

lemma convertData_ids:
  "map g_id (convertData data)
     = sort (filter is_array_index (first_seen (map type_id data)))
         @ filter (\<lambda>k. \<not> is_array_index k) (first_seen (map type_id data))"
proof -
  have "list_all (\<lambda>e. g_id (snd e) = fst e)
          (map (\<lambda>k. (k, spec_group data k)) (first_seen (map type_id data)))"
    unfolding list_all_iff
  proof
    fix e
    assume "e \<in> set (map (\<lambda>k. (k, spec_group data k)) (first_seen (map type_id data)))"
    then obtain k where "k \<in> set (first_seen (map type_id data))" and e: "e = (k, spec_group data k)"
      by auto
    then have "k \<in> set (map type_id data)" by (simp only: set_first_seen)
    then show "g_id (snd e) = fst e" by (simp only: e snd_conv fst_conv g_id_spec_group)
  qed
  then have "map g_id (convertData data)
      = map fst (own_properties (map (\<lambda>k. (k, spec_group data k)) (first_seen (map type_id data))))"
    by (simp only: convertData_def Let_def groupedObject_keyed own_properties_keyed)
  then show ?thesis by (simp add: map_fst_own_properties comp_def)
qed

lemma convertData_ids_distinct:
  "distinct (map g_id (convertData data)) \<and> set (map g_id (convertData data)) = set (map type_id data)"
  using distinct_first_seen [of "map type_id data"] set_first_seen [of "map type_id data"]
  by (auto simp: convertData_ids simp del: set_map)

lemma convertData_groups:
  assumes "g \<in> set (convertData data)"
  shows "\<exists>k. k \<in> set (map type_id data) \<and> g = spec_group data k \<and> g_id g = k"
proof -
  from assms have "g \<in> snd ` set (own_properties (map (\<lambda>k. (k, spec_group data k)) (first_seen (map type_id data))))"
    by (simp add: convertData_def groupedObject_keyed)
  then have "g \<in> snd ` set (map (\<lambda>k. (k, spec_group data k)) (first_seen (map type_id data)))"
    by (simp only: set_own_properties)
  then obtain k where "k \<in> set (first_seen (map type_id data))" and g: "g = spec_group data k"
    by auto
  then have k: "k \<in> set (map type_id data)" by (simp only: set_first_seen)
  from g g_id_spec_group [OF k] have "g_id g = k" by simp
  with k g show ?thesis by blast
qed

lemma convertData_menuItems:
  assumes "g \<in> set (convertData data)"
  shows "g_menuItems g = filter (\<lambda>a. type_id a = g_id g) data
       \<and> g_menuItems g \<noteq> []
       \<and> g = (new_group (hd (g_menuItems g)))\<lparr>g_menuItems := g_menuItems g\<rparr>"
proof -
  from convertData_groups [OF assms]
  obtain k where k: "k \<in> set (map type_id data)" and g: "g = spec_group data k" and i: "g_id g = k"
    by blast
  have ne: "filter (\<lambda>a. type_id a = k) data \<noteq> []"
    using type_id_seen_iff [of k data] k by blast
  have A: "g_menuItems g = filter (\<lambda>a. type_id a = k) data"
    unfolding g by (simp add: spec_group_def Let_def)
  have C: "g = (new_group (hd (g_menuItems g)))\<lparr>g_menuItems := g_menuItems g\<rparr>"
    unfolding g by (simp add: spec_group_def Let_def)
  from A ne have B: "g_menuItems g \<noteq> []" by simp
  from A i have "g_menuItems g = filter (\<lambda>a. type_id a = g_id g) data" by simp
  with B C show ?thesis by blast
qed

text \<open>
  C3 fails on the order of the groups. The API returns the tags sorted by
  \<open>tag_type.name\<close>: two tags of type \<open>priority\<close> (tag type id 2), then one of type
  \<open>severity\<close> (tag type id 1). The tag type ids are seen in the order 2, 1, and
  \<open>convertData\<close> returns the group of id 1 before the group of id 2, because the ids are
  array-index keys of \<open>groupedObject\<close> and \<open>Object.keys\<close> lists those in ascending order.
  Each group holds the tags of its type in fetch order.
\<close>

theorem convertData_orders_groups_by_id:
  "map g_id (convertData [tag_P1, tag_P2, tag_sev1]) = [1, 2]
   \<and> first_seen (map type_id [tag_P1, tag_P2, tag_sev1]) = [2, 1]
   \<and> convertData [tag_P1, tag_P2, tag_sev1]
       = [group_of severity_type [tag_sev1], group_of priority_type [tag_P1, tag_P2]]"
  by (simp add: convertData_def reduce_step_def push_item_def new_group_def own_properties_def
      is_array_index_def group_of_def tag_P1_def tag_P2_def tag_sev1_def priority_type_def
      severity_type_def)

section \<open>The request\<close>

text \<open>
  C4 fails. Whatever the search query, the project and the model, the request carries
  no text query (\<open>q\<close> stays \<open>null\<close>) and the tag type filter holds the discoverability
  conditions only: \<open>fetchData\<close> tests the \<open>q\<close> of its own fresh \<open>filterOptions\<close>, which is
  \<open>null\<close>, and never reads \<open>searchQuery\<close>. For the query \<open>priority/high\<close> the request is
  not the one the specification asks for.
\<close>

theorem fetchData_never_splits_searchQuery:
  "fo_q (fetchData_request pr m searchQuery) = None
   \<and> fl_tagTypeFilter (fo_filters (fetchData_request pr m searchQuery))
       = (if truthy m then [discoverable_type m] else ALL_DISCOVERABILITY_TYPES)
   \<and> \<not> spec_slash_request ''priority/high'' (fetchData_request ProjectNull None ''priority/high'')"
  by (simp add: fetchData_request_def spec_slash_request_def)

end
